theory Spec2Isabelle
  imports Main
begin

section \<open>Values, optional properties and the Context\<close>

text \<open>
  The payloads that travel through the client (query results, thrown errors, initial
  data) are JavaScript values.  \<open>JError\<close> is an \<^verbatim>\<open>Error\<close> object with its message,
  \<open>JTypeError\<close> the \<^verbatim>\<open>TypeError\<close> that a property access on \<^verbatim>\<open>null\<close> raises.
\<close>

datatype jsval =
    Undefined
  | Null
  | JBool bool
  | JNum int
  | JStr string
  | JObj "(string \<times> jsval) list"
  | JError string
  | JTypeError string

type_synonym Variables = "(string \<times> jsval) list"
type_synonym Headers = "(string \<times> string) list"

text \<open>
  A property of an object literal is missing, present with the value \<^verbatim>\<open>undefined\<close>, or
  present with a value.  The difference matters for the spread \<^verbatim>\<open>{...a, ...b}\<close>: a
  property that is present in \<^verbatim>\<open>b\<close> overrides the one of \<^verbatim>\<open>a\<close> even when its value is
  \<^verbatim>\<open>undefined\<close>.
\<close>

datatype 'a jsprop = Missing | Undef | Val 'a


text \<open>Reading a property: \<^verbatim>\<open>undefined\<close> (here \<open>None\<close>) unless it holds a value.\<close>

fun get :: "'a jsprop \<Rightarrow> 'a option" where
  "get (Val v) = Some v"
| "get Undef = None"
| "get Missing = None"

text \<open>\<^verbatim>\<open>const { x = d } = o\<close> and, for objects, \<^verbatim>\<open>o.x || d\<close>.\<close>

fun default :: "'a \<Rightarrow> 'a jsprop \<Rightarrow> 'a" where
  "default d (Val v) = v"
| "default d Undef = d"
| "default d Missing = d"

text \<open>\<^verbatim>\<open>o.x || d\<close> and \<^verbatim>\<open>if (o.x)\<close> on a string property: the empty string is falsy.\<close>

fun truthy :: "string jsprop \<Rightarrow> bool" where
  "truthy (Val s) = (s \<noteq> [])"
| "truthy Undef = False"
| "truthy Missing = False"

fun str_or :: "string jsprop \<Rightarrow> string \<Rightarrow> string" where
  "str_or (Val s) d = (if s \<noteq> [] then s else d)"
| "str_or Undef d = d"
| "str_or Missing d = d"

record Ctx =
  body :: jsval
  headers :: Headers
  valid :: bool

section \<open>The Client: construction, configuration, middleware registration\<close>

record GraphqlOptions =
  endpoint :: "string jsprop"
  go_headers :: "Headers jsprop"
  subscriptionsEndpoint :: "string jsprop"

text \<open>
  The two transport instances, as the values their constructors were given:
  \<^verbatim>\<open>new GraphQLClient({endpoint, headers})\<close> and
  \<^verbatim>\<open>new SubscriptionClient(subscriptionsEndpoint, {reconnect: true})\<close>.
\<close>

record GraphQLClient =
  gc_endpoint :: "string option"
  gc_headers :: "Headers option"

record SubscriptionClient =
  sc_url :: string
  sc_reconnect :: bool

text \<open>
  A middleware stage is a function \<^verbatim>\<open>(ctx, next) => Promise\<close> supplied by the caller.
  Stages are given as small programs over the Context: they may throw, read and write the
  Context, record a marker that an outside observer sees, branch on the Context, and
  await \<^verbatim>\<open>next()\<close>, with or without a \<^verbatim>\<open>try/catch\<close> around it.
\<close>

datatype marker = Enter nat | Exit nat

datatype prog =
    Return
  | Throw jsval
  | Act "Ctx \<Rightarrow> Ctx" prog
  | Mark marker prog
  | Cond "Ctx \<Rightarrow> bool" prog prog
  | Next prog
  | TryNext "jsval \<Rightarrow> Ctx \<Rightarrow> Ctx" prog

type_synonym Middleware = prog

record Client =
  graphqlOptions :: GraphqlOptions
  middleware :: "Middleware list"
  graphqlClient :: GraphQLClient
  subscriptionClient :: "SubscriptionClient option"
  ctx :: Ctx

definition new_GraphQLClient :: "GraphqlOptions \<Rightarrow> GraphQLClient" where
  "new_GraphQLClient opt =
     \<lparr>gc_endpoint = get (endpoint opt), gc_headers = get (go_headers opt)\<rparr>"

definition new_SubscriptionClient :: "string \<Rightarrow> SubscriptionClient" where
  "new_SubscriptionClient url = \<lparr>sc_url = url, sc_reconnect = True\<rparr>"

definition default_opt :: GraphqlOptions where
  "default_opt =
     \<lparr>endpoint = Val ''/graphql'', go_headers = Val [], subscriptionsEndpoint = Missing\<rparr>"

text \<open>The constructor; \<open>None\<close> is the \<^verbatim>\<open>null\<close> that \<^verbatim>\<open>subscriptionClient\<close> starts with.\<close>

definition constructor :: "GraphqlOptions \<Rightarrow> Client" where
  "constructor opt =
     \<lparr>graphqlOptions = opt,
      middleware = [],
      graphqlClient = new_GraphQLClient opt,
      subscriptionClient =
        (if truthy (subscriptionsEndpoint opt)
         then Some (new_SubscriptionClient (default [] (subscriptionsEndpoint opt)))
         else None),
      ctx = \<lparr>body = Undefined, headers = [], valid = True\<rparr>\<rparr>"



definition applyMiddleware :: "Client \<Rightarrow> Middleware \<Rightarrow> Client" where
  "applyMiddleware c fn = c\<lparr>middleware := middleware c @ [fn]\<rparr>"

section \<open>The middleware pipeline and \<open>query\<close>\<close>

record Options =
  key :: "string jsprop"
  variables :: "Variables jsprop"
  o_headers :: "Headers jsprop"
  initialData :: "jsval jsprop"
  onUpdate :: "nat jsprop"
  deps :: "jsval list jsprop"

definition no_options :: Options where
  "no_options =
     \<lparr>key = Missing, variables = Missing, o_headers = Missing, initialData = Missing,
      onUpdate = Missing, deps = Missing\<rparr>"

text \<open>
  \<open>Result\<close> is the state object of the hooks, \<^verbatim>\<open>{loading, data, error}\<close>; a property that
  an object literal leaves out reads as \<^verbatim>\<open>undefined\<close>.

  What an outside observer sees of a run: the markers that stages record; the calls that
  reach the transport \<^verbatim>\<open>graphqlClient.query(input, variables, {headers})\<close>, each with the
  instance it was made on; the calls of an \<^verbatim>\<open>onUpdate\<close> callback (a callback is known by
  a number); the requests submitted to the subscription channel; and the rejected promises
  that nobody awaits.
\<close>

record Result =
  loading :: bool
  data :: jsval
  error :: jsval

datatype event =
    Marked marker
  | Called GraphQLClient string Variables Headers
  | Updated nat Result
  | Requested SubscriptionClient string Variables "string option"
  | UnhandledRejection jsval

fun is_call :: "event \<Rightarrow> bool" where
  "is_call (Called g i v h) = True"
| "is_call (Marked m) = False"
| "is_call (Updated cb r) = False"
| "is_call (Requested sc i v n) = False"
| "is_call (UnhandledRejection e) = False"

definition ncalls :: "event list \<Rightarrow> nat" where
  "ncalls tr = length (filter is_call tr)"

text \<open>
  The transport is outside the repository: the outcome of a call is a parameter, a function
  of the number of calls made before it, the instance and the arguments.  \<open>Inl\<close> is a
  thrown value (a rejected promise), \<open>Inr\<close> a result.
\<close>

type_synonym Transport =
  "nat \<Rightarrow> GraphQLClient \<Rightarrow> string \<Rightarrow> Variables \<Rightarrow> Headers \<Rightarrow> jsval + jsval"

datatype outcome = Resolved | Rejected jsval

text \<open>
  The state of one call of the composed function: the Context object it was given, the
  local variable \<^verbatim>\<open>index\<close> of \<^verbatim>\<open>koa-compose\<close>, and the observer's trace.
\<close>

record rstate =
  kcontext :: Ctx
  index :: int
  trace :: "event list"

type_synonym fn = "(rstate \<Rightarrow> rstate \<times> outcome) \<Rightarrow> rstate \<Rightarrow> rstate \<times> outcome"

text \<open>
  Running a stage with the continuation \<open>next\<close>.  A rejection of \<^verbatim>\<open>await next()\<close>
  leaves the stage unless the stage catches it; the writes made so far stay.
\<close>

fun exec :: "prog \<Rightarrow> fn" where
  "exec Return next s = (s, Resolved)"
| "exec (Throw e) next s = (s, Rejected e)"
| "exec (Act f p) next s = exec p next (s\<lparr>kcontext := f (kcontext s)\<rparr>)"
| "exec (Mark m p) next s = exec p next (s\<lparr>trace := trace s @ [Marked m]\<rparr>)"
| "exec (Cond b p q) next s = (if b (kcontext s) then exec p next s else exec q next s)"
| "exec (Next p) next s =
     (case next s of
        (s', Resolved) \<Rightarrow> exec p next s'
      | (s', Rejected e) \<Rightarrow> (s', Rejected e))"
| "exec (TryNext h p) next s =
     (case next s of
        (s', Resolved) \<Rightarrow> exec p next s'
      | (s', Rejected e) \<Rightarrow> exec p next (s'\<lparr>kcontext := h e (kcontext s')\<rparr>))"

text \<open>
  \<^verbatim>\<open>koa-compose\<close>, an external library:
  \<^verbatim>\<open>
  function dispatch (i) {
    if (i <= index) return Promise.reject(new Error('next() called multiple times'))
    index = i
    let fn = middleware[i]
    if (i === middleware.length) fn = next
    if (!fn) return Promise.resolve()
    try { return Promise.resolve(fn(context, dispatch.bind(null, i + 1))) }
    catch (err) { return Promise.reject(err) }
  }
  \<close>
  \<open>dispatch i fns\<close> is \<^verbatim>\<open>dispatch(i)\<close> where \<open>fns\<close> is the array from position \<open>i\<close> on;
  the composed function is called without \<^verbatim>\<open>next\<close>, so the end of the array resolves.
\<close>

fun dispatch :: "nat \<Rightarrow> fn list \<Rightarrow> rstate \<Rightarrow> rstate \<times> outcome" where
  "dispatch i [] s =
     (if int i \<le> index s then (s, Rejected (JError ''next() called multiple times''))
      else (s\<lparr>index := int i\<rparr>, Resolved))"
| "dispatch i (f # fns) s =
     (if int i \<le> index s then (s, Rejected (JError ''next() called multiple times''))
      else f (dispatch (Suc i) fns) (s\<lparr>index := int i\<rparr>))"

definition compose :: "fn list \<Rightarrow> Ctx \<Rightarrow> event list \<Rightarrow> (Ctx \<times> event list) \<times> outcome" where
  "compose fns cx tr =
     (case dispatch 0 fns \<lparr>kcontext = cx, index = - 1, trace = tr\<rparr> of
        (s, r) \<Rightarrow> ((kcontext s, trace s), r))"

text \<open>
  The terminal action of \<open>query\<close>: one call of the transport inside \<^verbatim>\<open>try/catch\<close>.  It
  takes no \<^verbatim>\<open>next\<close> and always resolves.
\<close>

definition action :: "Transport \<Rightarrow> Client \<Rightarrow> string \<Rightarrow> Variables \<Rightarrow> Options \<Rightarrow> fn" where
  "action T c input vars options next s =
     (let hs = default [] (o_headers options);
          s1 = s\<lparr>trace := trace s @ [Called (graphqlClient c) input vars hs]\<rparr>
      in case T (ncalls (trace s)) (graphqlClient c) input vars hs of
           Inr result \<Rightarrow> (s1\<lparr>kcontext := (kcontext s1)\<lparr>body := result\<rparr>\<rparr>, Resolved)
         | Inl err \<Rightarrow> (s1\<lparr>kcontext := (kcontext s1)\<lparr>body := err, valid := False\<rparr>\<rparr>, Resolved))"

text \<open>
  \<open>query\<close> on the client \<open>c\<close>, with the trace so far: the new client (its \<^verbatim>\<open>ctx\<close> is the
  object the pipeline wrote to), the new trace, and \<open>Inr\<close> the returned value or \<open>Inl\<close>
  the value the promise rejects with.  This is an invocation that runs alone: between its
  call and its settlement no other invocation on the client runs.  Invocations that
  overlap write the one \<^verbatim>\<open>this.ctx\<close> while another is suspended at an \<^verbatim>\<open>await\<close>; they are
  outside this function, and every statement below about the outcome of a query is about
  invocations that run one after the other.
\<close>

definition query ::
  "Transport \<Rightarrow> Client \<Rightarrow> event list \<Rightarrow> string \<Rightarrow> Options \<Rightarrow> (Client \<times> event list) \<times> (jsval + jsval)" where
  "query T c tr input options =
     (let vars = default [] (variables options) in
      case compose (map exec (middleware c) @ [action T c input vars options]) (ctx c) tr of
        ((cx, tr'), Rejected e) \<Rightarrow> ((c\<lparr>ctx := cx\<rparr>, tr'), Inl e)
      | ((cx, tr'), Resolved) \<Rightarrow>
          (if \<not> valid cx then ((c\<lparr>ctx := cx\<rparr>, tr'), Inl (body cx))
           else ((c\<lparr>ctx := cx\<rparr>, tr'), Inr (body cx))))"

section \<open>The hooks\<close>

text \<open>
  A promise that a hook awaits is a task in \<open>pending\<close>: \<open>Fetch input opt target cb\<close> is
  \<^verbatim>\<open>doFetch\<close> (or \<^verbatim>\<open>initQuery\<close>) at \<^verbatim>\<open>await this.query(input, opt)\<close>.  The code after
  an \<^verbatim>\<open>await\<close> never runs in the synchronous part of the caller, and the part of the
  query that runs before it touches neither the store nor the registry of refetch
  handles; so the query is taken as one step, which runs when the task is resumed, and two
  queries do not overlap.
\<close>

datatype target = Store string | Local

datatype task = Fetch string Options target "nat jsprop"

datatype FetcherItem = Refetch string string "nat jsprop"

record World =
  client :: Client
  events :: "event list"
  store :: "string \<rightharpoonup> Result"
  local :: "Result option"
  fetcher :: "string \<rightharpoonup> FetcherItem"
  pending :: "task list"

text \<open>
  Modelled from the spec: \<open>useStore\<close> of the package \<^verbatim>\<open>stook\<close> is missing from the
  sources.  \<^verbatim>\<open>getOrInit(K, initialState)\<close> returns the current state for \<open>K\<close>, creating
  it with \<open>initialState\<close> if absent; \<^verbatim>\<open>update(K, nextState)\<close> replaces the stored state.
\<close>

definition useStore :: "World \<Rightarrow> string \<Rightarrow> Result \<Rightarrow> Result \<times> World" where
  "useStore w k initialState =
     (case store w k of
        None \<Rightarrow> (initialState, w\<lparr>store := (store w)(k \<mapsto> initialState)\<rparr>)
      | Some r \<Rightarrow> (r, w))"

text \<open>React's \<^verbatim>\<open>useState\<close>: the state of the component that calls the hook.\<close>

definition useState :: "World \<Rightarrow> Result \<Rightarrow> Result \<times> World" where
  "useState w initialState =
     (case local w of
        None \<Rightarrow> (initialState, w\<lparr>local := Some initialState\<rparr>)
      | Some r \<Rightarrow> (r, w))"

fun setState :: "target \<Rightarrow> Result \<Rightarrow> World \<Rightarrow> World" where
  "setState (Store k) nextState w = w\<lparr>store := (store w)(k \<mapsto> nextState)\<rparr>"
| "setState Local nextState w = w\<lparr>local := Some nextState\<rparr>"

text \<open>
  Modelled from the spec: the module \<^verbatim>\<open>./fetcher\<close> is missing from the sources.
  \<^verbatim>\<open>registerRefetch(K, refetchFn)\<close> stores the latest refetch handle for \<open>K\<close>, overwriting
  any prior handle.
\<close>

definition fetcher_set :: "string \<Rightarrow> FetcherItem \<Rightarrow> World \<Rightarrow> World" where
  "fetcher_set k item w = w\<lparr>fetcher := (fetcher w)(k \<mapsto> item)\<rparr>"

text \<open>\<^verbatim>\<open>function update(nextState) { setState(nextState); onUpdate && onUpdate(nextState) }\<close>\<close>

definition update :: "target \<Rightarrow> nat jsprop \<Rightarrow> Result \<Rightarrow> World \<Rightarrow> World" where
  "update tg cb nextState w =
     (let w1 = setState tg nextState w
      in case get cb of
           Some f \<Rightarrow> w1\<lparr>events := events w1 @ [Updated f nextState]\<rparr>
         | None \<Rightarrow> w1)"

text \<open>
  The rest of \<^verbatim>\<open>doFetch\<close> once the awaited query has settled: the \<^verbatim>\<open>try\<close> branch
  publishes \<^verbatim>\<open>{loading: false, data}\<close> for a query that returned \<open>data\<close>, the \<^verbatim>\<open>catch\<close>
  branch \<^verbatim>\<open>{loading: false, error}\<close> for one that rejected with \<open>error\<close>.
\<close>

fun after_query :: "jsval + jsval \<Rightarrow> target \<Rightarrow> nat jsprop \<Rightarrow> World \<Rightarrow> World" where
  "after_query (Inr d) tg cb w =
     update tg cb \<lparr>loading = False, data = d, error = Undefined\<rparr> w"
| "after_query (Inl e) tg cb w =
     update tg cb \<lparr>loading = False, data = Undefined, error = e\<rparr> w"

text \<open>Resuming a task whose query runs alone: the query, then the rest of \<^verbatim>\<open>doFetch\<close>.\<close>

fun resume :: "Transport \<Rightarrow> task \<Rightarrow> World \<Rightarrow> World" where
  "resume T (Fetch input opt tg cb) w =
     (case query T (client w) (events w) input opt of
        ((c, tr), r) \<Rightarrow> after_query r tg cb (w\<lparr>client := c, events := tr\<rparr>))"

text \<open>
  One turn of the event loop: the oldest pending task is resumed, its query running
  alone.
\<close>

definition turn :: "Transport \<Rightarrow> World \<Rightarrow> World" where
  "turn T w =
     (case pending w of
        [] \<Rightarrow> w
      | t # ts \<Rightarrow> resume T t (w\<lparr>pending := ts\<rparr>))"


subsection \<open>\<open>useQuery\<close>\<close>

text \<open>
  The body of the hook (one render) and the effect that React runs after the first
  render.  \<open>unmounted\<close> is \<^verbatim>\<open>false\<close> when the effect runs: only the cleanup sets it.
  \<open>Refetch input name cb\<close> is the function \<^verbatim>\<open>refetch\<close> with what it closes over; the
  hook returns \<^verbatim>\<open>{...result, refetch}\<close>.
\<close>

definition useQuery_doFetch :: "bool \<Rightarrow> string \<Rightarrow> Options \<Rightarrow> Options \<Rightarrow> World \<Rightarrow> World" where
  "useQuery_doFetch unmounted input options opt w =
     (if unmounted then w
      else w\<lparr>pending := pending w @
                [Fetch input opt (Store (str_or (key options) input)) (onUpdate options)]\<rparr>)"

definition useQuery :: "string \<Rightarrow> Options \<Rightarrow> World \<Rightarrow> (Result \<times> FetcherItem) \<times> World" where
  "useQuery input options w =
     (let d = default Undefined (initialData options);
          fetcherName = str_or (key options) input;
          initialState = \<lparr>loading = True, data = d, error = Undefined\<rparr>
      in case useStore w fetcherName initialState of
           (result, w') \<Rightarrow> ((result, Refetch input fetcherName (onUpdate options)), w'))"

definition useQuery_effect :: "string \<Rightarrow> Options \<Rightarrow> World \<Rightarrow> World" where
  "useQuery_effect input options w =
     (let fetcherName = str_or (key options) input;
          w1 = useQuery_doFetch False input options options w
      in fetcher_set fetcherName (Refetch input fetcherName (onUpdate options)) w1)"

subsection \<open>\<open>useMutate\<close>\<close>




section \<open>Subscriptions\<close>

record InitialQuery =
  iq_query :: string
  iq_variables :: "Variables jsprop"

record SubscriptionOption =
  so_variables :: "Variables jsprop"
  operationName :: "string jsprop"
  initialQuery :: "InitialQuery jsprop"
  so_onUpdate :: "nat jsprop"

text \<open>
  \<open>initQuery\<close> up to its \<^verbatim>\<open>await\<close>, and \<open>initSubscribe\<close>, which has no \<^verbatim>\<open>await\<close>: its whole
  body runs when it is called, and what it throws rejects the promise it returns.  A
  property access on the \<^verbatim>\<open>null\<close> that \<^verbatim>\<open>subscriptionClient\<close> starts with throws a
  \<^verbatim>\<open>TypeError\<close>.
\<close>

definition initQuery :: "bool \<Rightarrow> SubscriptionOption \<Rightarrow> World \<Rightarrow> World" where
  "initQuery unmounted options w =
     (case get (initialQuery options) of
        None \<Rightarrow> w
      | Some iq \<Rightarrow>
          if unmounted then w
          else w\<lparr>pending := pending w @
                    [Fetch (iq_query iq)
                       (no_options\<lparr>variables := Val (default [] (iq_variables iq))\<rparr>)
                       Local (so_onUpdate options)]\<rparr>)"

definition initSubscribe :: "bool \<Rightarrow> string \<Rightarrow> SubscriptionOption \<Rightarrow> World \<Rightarrow> World \<times> outcome" where
  "initSubscribe unmounted input options w =
     (if unmounted then (w, Resolved)
      else case subscriptionClient (client w) of
             None \<Rightarrow>
               (w, Rejected (JTypeError ''Cannot read properties of null (reading request)''))
           | Some sc \<Rightarrow>
               (w\<lparr>events := events w @
                     [Requested sc input (default [] (so_variables options))
                        (Some (default [] (operationName options)))]\<rparr>,
                Resolved))"

definition useSubscribe :: "string \<Rightarrow> SubscriptionOption \<Rightarrow> World \<Rightarrow> Result \<times> World" where
  "useSubscribe input options w =
     (let initialState = \<lparr>loading = True, data = Undefined, error = Undefined\<rparr>
      in useState w initialState)"

text \<open>The effect drops the promise of \<open>initSubscribe\<close>: a rejection is unhandled.\<close>

definition useSubscribe_effect :: "string \<Rightarrow> SubscriptionOption \<Rightarrow> World \<Rightarrow> World" where
  "useSubscribe_effect input options w =
     (let w1 = (case get (initialQuery options) of
                  Some iq \<Rightarrow> initQuery False options w
                | None \<Rightarrow> w)
      in case initSubscribe False input options w1 of
           (w2, Resolved) \<Rightarrow> w2
         | (w2, Rejected e) \<Rightarrow> w2\<lparr>events := events w2 @ [UnhandledRejection e]\<rparr>)"

subsection \<open>\<open>fromSubscription\<close>\<close>

text \<open>
  An observer holds up to three callbacks.  What \<open>subscribe\<close> hands to the channel is
  either the caller's own function or the wrapper
  \<^verbatim>\<open>(data) => { if (observer.next) observer.next(data) }\<close> around it.
\<close>

record Observer =
  ob_next :: "nat jsprop"
  ob_error :: "nat jsprop"
  ob_complete :: "nat jsprop"

datatype callback = Own nat | Wrapper "nat jsprop"

record ChannelObserver =
  ch_next :: "callback jsprop"
  ch_error :: "callback jsprop"
  ch_complete :: "callback jsprop"

record FromSubscriptionOption =
  fs_variables :: "Variables jsprop"

record Subscribable =
  sb_client :: SubscriptionClient
  sb_input :: string
  sb_variables :: Variables

definition fromSubscription ::
  "Client \<Rightarrow> string \<Rightarrow> FromSubscriptionOption \<Rightarrow> jsval + Subscribable" where
  "fromSubscription c input options =
     (let vars = default [] (fs_variables options)
      in case subscriptionClient c of
           None \<Rightarrow> Inl (JError ''require subscriptionsEndpoint config'')
         | Some sc \<Rightarrow> Inr \<lparr>sb_client = sc, sb_input = input, sb_variables = vars\<rparr>)"

text \<open>A callback property is truthy when it holds a function.\<close>

fun defined :: "'a jsprop \<Rightarrow> bool" where
  "defined (Val v) = True"
| "defined Undef = False"
| "defined Missing = False"

text \<open>An assignment \<^verbatim>\<open>ob.x = v\<close>: the property is present afterwards, whatever \<open>v\<close> is.\<close>

fun assigned :: "'a jsprop \<Rightarrow> 'a jsprop" where
  "assigned (Val v) = Val v"
| "assigned Undef = Undef"
| "assigned Missing = Undef"

definition make_ob :: "Observer \<Rightarrow> ChannelObserver" where
  "make_ob observer =
     (let ob0 = \<lparr>ch_next = Missing, ch_error = Missing, ch_complete = Missing\<rparr>;
          ob1 = (if defined (ob_next observer)
                 then ob0\<lparr>ch_next := Val (Wrapper (ob_next observer))\<rparr> else ob0);
          ob2 = (if defined (ob_error observer)
                 then ob1\<lparr>ch_error := assigned (map_jsprop Own (ob_error observer))\<rparr> else ob1);
          ob3 = (if defined (ob_error observer)
                 then ob2\<lparr>ch_complete := assigned (map_jsprop Own (ob_complete observer))\<rparr>
                 else ob2)
      in ob3)"

text \<open>
  \<open>subscribe\<close> of the returned object: the request submitted to the channel and the
  observer attached to it.
\<close>

definition subscribe :: "Subscribable \<Rightarrow> Observer \<Rightarrow> event \<times> ChannelObserver" where
  "subscribe sb observer =
     (Requested (sb_client sb) (sb_input sb) (sb_variables sb) None, make_ob observer)"

text \<open>
  The channel (\<^verbatim>\<open>subscriptions-transport-ws\<close>, external) delivers a message to the
  attached observer by calling the matching property when it holds a function.  The
  result lists the calls of the caller's own functions that the delivery makes.
\<close>

datatype message = MsgNext jsval | MsgError jsval | MsgComplete

datatype invocation = CallNext nat jsval | CallError nat jsval | CallComplete nat

fun invoke :: "callback \<Rightarrow> (nat \<Rightarrow> invocation) \<Rightarrow> invocation list" where
  "invoke (Own f) mk = [mk f]"
| "invoke (Wrapper p) mk = (case get p of Some f \<Rightarrow> [mk f] | None \<Rightarrow> [])"

fun deliver :: "ChannelObserver \<Rightarrow> message \<Rightarrow> invocation list" where
  "deliver ob (MsgNext d) =
     (case get (ch_next ob) of Some cb \<Rightarrow> invoke cb (\<lambda>f. CallNext f d) | None \<Rightarrow> [])"
| "deliver ob (MsgError e) =
     (case get (ch_error ob) of Some cb \<Rightarrow> invoke cb (\<lambda>f. CallError f e) | None \<Rightarrow> [])"
| "deliver ob MsgComplete =
     (case get (ch_complete ob) of Some cb \<Rightarrow> invoke cb CallComplete | None \<Rightarrow> [])"

section \<open>Notions used in the statements\<close>

subsection \<open>The terminal action as a state change\<close>

definition act_on :: "Transport \<Rightarrow> Client \<Rightarrow> string \<Rightarrow> Variables \<Rightarrow> Options \<Rightarrow> rstate \<Rightarrow> rstate" where
  "act_on T c input vars options s = fst (action T c input vars options (\<lambda>s. (s, Resolved)) s)"

text \<open>
  The outcome that the transport gives to the call of a query that starts at the trace
  \<open>tr\<close>, and what the terminal action writes into a Context for an outcome.
\<close>

definition reply :: "Transport \<Rightarrow> Client \<Rightarrow> event list \<Rightarrow> string \<Rightarrow> Options \<Rightarrow> jsval + jsval" where
  "reply T c tr input options =
     T (ncalls tr) (graphqlClient c) input (default [] (variables options))
       (default [] (o_headers options))"

definition settle_ctx :: "jsval + jsval \<Rightarrow> Ctx \<Rightarrow> Ctx" where
  "settle_ctx t cx =
     (case t of Inr r \<Rightarrow> cx\<lparr>body := r\<rparr> | Inl e \<Rightarrow> cx\<lparr>body := e, valid := False\<rparr>)"

subsection \<open>Onion stages\<close>

text \<open>
  The stage
  \<^verbatim>\<open>async (ctx, next) => { enter(l); pre(ctx); await next(); exit(l); post(ctx) }\<close>:
  code before \<^verbatim>\<open>next\<close>, one awaited call of \<^verbatim>\<open>next\<close>, code after it.  The markers
  are the sequence-number recorders of the spec's marker stages.
\<close>

definition stage :: "nat \<Rightarrow> (Ctx \<Rightarrow> Ctx) \<Rightarrow> (Ctx \<Rightarrow> Ctx) \<Rightarrow> prog" where
  "stage l pre post = Mark (Enter l) (Act pre (Next (Mark (Exit l) (Act post Return))))"

type_synonym onion = "nat \<times> (Ctx \<Rightarrow> Ctx) \<times> (Ctx \<Rightarrow> Ctx)"

fun of_onion :: "onion \<Rightarrow> prog" where
  "of_onion (l, pre, post) = stage l pre post"

fun label :: "onion \<Rightarrow> nat" where
  "label (l, pre, post) = l"

text \<open>
  The code before \<^verbatim>\<open>next\<close> of all stages, first stage first, and the code after
  \<^verbatim>\<open>next\<close> of all stages, last stage first.
\<close>

fun pres :: "onion list \<Rightarrow> Ctx \<Rightarrow> Ctx" where
  "pres [] cx = cx"
| "pres ((l, pre, post) # sts) cx = pres sts (pre cx)"

fun posts :: "onion list \<Rightarrow> Ctx \<Rightarrow> Ctx" where
  "posts [] cx = cx"
| "posts ((l, pre, post) # sts) cx = post (posts sts cx)"

text \<open>A stage that leaves \<^verbatim>\<open>ctx.body\<close> and \<^verbatim>\<open>ctx.valid\<close> as they are.\<close>

definition keeps :: "(Ctx \<Rightarrow> Ctx) \<Rightarrow> bool" where
  "keeps f \<longleftrightarrow> (\<forall>cx. body (f cx) = body cx \<and> valid (f cx) = valid cx)"

fun quiet :: "onion \<Rightarrow> bool" where
  "quiet (l, pre, post) = (keeps pre \<and> keeps post)"

subsection \<open>Stages that reach \<^verbatim>\<open>next\<close>\<close>

text \<open>Every path through the stage comes to an \<^verbatim>\<open>await next()\<close>.\<close>

fun reaches_next :: "prog \<Rightarrow> bool" where
  "reaches_next Return = False"
| "reaches_next (Throw e) = False"
| "reaches_next (Act f p) = reaches_next p"
| "reaches_next (Mark m p) = reaches_next p"
| "reaches_next (Cond b p q) = (reaches_next p \<and> reaches_next q)"
| "reaches_next (Next p) = True"
| "reaches_next (TryNext h p) = True"

text \<open>
  The invariant of a composed run whose terminal action sits at position \<open>N\<close>:
  \<^verbatim>\<open>index\<close> never decreases, the number of transport calls grows by at most one, only
  from a state with \<^verbatim>\<open>index\<close> below \<open>N\<close>, and then leaves \<^verbatim>\<open>index\<close> at \<open>N\<close> or above.
\<close>

definition step_ok :: "nat \<Rightarrow> rstate \<Rightarrow> rstate \<Rightarrow> bool" where
  "step_ok N s s' \<longleftrightarrow>
     index s \<le> index s' \<and>
     ncalls (trace s) \<le> ncalls (trace s') \<and>
     ncalls (trace s') \<le> ncalls (trace s) + (if index s < int N then 1 else 0) \<and>
     (ncalls (trace s') \<le> ncalls (trace s) \<or> int N \<le> index s')"

definition within :: "nat \<Rightarrow> (rstate \<Rightarrow> rstate \<times> outcome) \<Rightarrow> bool" where
  "within N k \<longleftrightarrow> (\<forall>s. step_ok N s (fst (k s)))"

definition calls_when_fresh :: "nat \<Rightarrow> (rstate \<Rightarrow> rstate \<times> outcome) \<Rightarrow> bool" where
  "calls_when_fresh j k \<longleftrightarrow>
     (\<forall>s. index s < int j \<longrightarrow> ncalls (trace s) < ncalls (trace (fst (k s))))"

subsection \<open>Sequences of queries\<close>

text \<open>
  Queries run one after the other on the same client; each result is paired with the
  outcome that the transport gives to that query's call.
\<close>

fun run_queries ::
  "Transport \<Rightarrow> Client \<Rightarrow> event list \<Rightarrow> (string \<times> Options) list \<Rightarrow>
     ((jsval + jsval) \<times> (jsval + jsval)) list" where
  "run_queries T c tr [] = []"
| "run_queries T c tr ((input, options) # qs) =
     (case query T c tr input options of
        ((c', tr'), r) \<Rightarrow> (reply T c tr input options, r) # run_queries T c' tr' qs)"

text \<open>The query rejects, and with the value that the transport produced.\<close>

fun rejects_with_reply :: "(jsval + jsval) \<times> (jsval + jsval) \<Rightarrow> bool" where
  "rejects_with_reply (Inr v, r) = (r = Inl v)"
| "rejects_with_reply (Inl e, r) = (r = Inl e)"

subsection \<open>The state that a settled fetch publishes\<close>

definition settled :: "jsval + jsval \<Rightarrow> Result" where
  "settled r =
     (case r of
        Inr d \<Rightarrow> \<lparr>loading = False, data = d, error = Undefined\<rparr>
      | Inl e \<Rightarrow> \<lparr>loading = False, data = Undefined, error = e\<rparr>)"

section \<open>Example inputs\<close>

definition hello :: string where
  "hello = ''{ hello }''"

definition world :: jsval where
  "world = JObj [(''hello'', JStr ''world'')]"

definition boom :: jsval where
  "boom = JError ''boom''"


definition ticks :: string where
  "ticks = ''subscription { tick }''"

text \<open>A transport that always answers, and one whose first call throws.\<close>

definition always_ok :: Transport where
  "always_ok n g i v h = Inr world"

definition boom_then_ok :: Transport where
  "boom_then_ok n g i v h = (if n = 0 then Inl boom else Inr world)"

text \<open>
  \<^verbatim>\<open>async (ctx, next) => { ctx.valid = true; await next() }\<close>,
  \<^verbatim>\<open>async (ctx, next) => { await next(); if (!ctx.valid) { ctx.valid = true; ctx.body = null } }\<close>
  and \<^verbatim>\<open>async (ctx) => { ctx.body = 'cached' }\<close>.
\<close>

definition recover :: prog where
  "recover = Act (\<lambda>cx. cx\<lparr>valid := True\<rparr>) (Next Return)"

definition fallback :: prog where
  "fallback =
     Next (Cond (\<lambda>cx. \<not> valid cx) (Act (\<lambda>cx. cx\<lparr>valid := True, body := Null\<rparr>) Return) Return)"

definition cached :: prog where
  "cached = Act (\<lambda>cx. cx\<lparr>body := JStr ''cached''\<rparr>) Return"

text \<open>
  \<^verbatim>\<open>async (ctx, next) => { await next(); throw Error('boom') }\<close> and
  \<^verbatim>\<open>async (ctx, next) => { await next();
    if (noKeys(ctx.headers)) { ctx.headers = {seen: '1'}; throw Error('boom') } }\<close>.
\<close>

definition thrower :: prog where
  "thrower = Next (Throw boom)"

definition throw_once :: prog where
  "throw_once =
     Next (Cond (\<lambda>cx. headers cx = [])
             (Act (\<lambda>cx. cx\<lparr>headers := [(''seen'', ''1'')]\<rparr>) (Throw boom))
             Return)"

definition auth :: onion where
  "auth = (1, (\<lambda>cx. cx\<lparr>headers := [(''authorization'', ''token'')]\<rparr>), (\<lambda>cx. cx))"

definition timing :: onion where
  "timing = (2, (\<lambda>cx. cx), (\<lambda>cx. cx\<lparr>headers := (''x-done'', ''1'') # headers cx\<rparr>))"





definition no_sub_options :: SubscriptionOption where
  "no_sub_options =
     \<lparr>so_variables = Missing, operationName = Missing, initialQuery = Missing,
      so_onUpdate = Missing\<rparr>"

definition watcher :: Observer where
  "watcher = \<lparr>ob_next = Val 1, ob_error = Missing, ob_complete = Val 3\<rparr>"

definition tick_source :: Subscribable where
  "tick_source =
     \<lparr>sb_client = new_SubscriptionClient ''ws://a'', sb_input = ticks, sb_variables = []\<rparr>"

text \<open>A client built with the default options, before any hook has run.\<close>

definition fresh_world :: World where
  "fresh_world =
     \<lparr>client = constructor default_opt, events = [], store = Map.empty, local = None,
      fetcher = Map.empty, pending = []\<rparr>"

section \<open>Lemmas\<close>

subsection \<open>The terminal action\<close>

lemma action_eq:
  "action T c input vars options next s = (act_on T c input vars options s, Resolved)"
  by (simp add: action_def act_on_def Let_def split: sum.splits)

lemma act_on_index: "index (act_on T c input vars options s) = index s"
  by (simp add: action_def act_on_def Let_def split: sum.splits)

lemma act_on_trace:
  "trace (act_on T c input vars options s) =
     trace s @ [Called (graphqlClient c) input vars (default [] (o_headers options))]"
  by (simp add: action_def act_on_def Let_def split: sum.splits)

lemma act_on_kcontext: "kcontext (act_on T c input vars options s) =
  (case T (ncalls (trace s)) (graphqlClient c) input vars (default [] (o_headers options)) of
     Inr r \<Rightarrow> (kcontext s)\<lparr>body := r\<rparr>
   | Inl e \<Rightarrow> (kcontext s)\<lparr>body := e, valid := False\<rparr>)"
  by (simp add: action_def act_on_def Let_def split: sum.splits)

subsection \<open>A chain of onion stages\<close>

text \<open>Induction on the stages, with the position and the state generalised.\<close>

lemma dispatch_onion:
  "index s < int i \<Longrightarrow>
   dispatch i (map (exec \<circ> of_onion) sts @ [action T c input vars options]) s =
     (let s1 = s\<lparr>index := int (i + length sts), kcontext := pres sts (kcontext s),
                 trace := trace s @ map (Marked \<circ> Enter \<circ> label) sts\<rparr>;
          s2 = act_on T c input vars options s1
      in (s2\<lparr>kcontext := posts sts (kcontext s2),
             trace := trace s2 @ map (Marked \<circ> Exit \<circ> label) (rev sts)\<rparr>, Resolved))"
proof (induction sts arbitrary: i s)
  case Nil
  then show ?case by (simp add: action_eq Let_def)
next
  case (Cons a sts)
  obtain l pre post where a: "a = (l, pre, post)" by (cases a)
  let ?s' = "s\<lparr>index := int i, trace := trace s @ [Marked (Enter l)],
               kcontext := pre (kcontext s)\<rparr>"
  have "index ?s' < int (Suc i)" by simp
  from Cons.IH[OF this] show ?case using Cons.prems
    by (simp add: a stage_def Let_def)
qed

subsection \<open>At most one transport call\<close>

text \<open>
  \<open>step_ok\<close> is reflexive and transitive, and the writes of a stage to the Context and
  to the markers respect it; so a stage respects it when its continuation does.
\<close>

lemma step_ok_refl: "step_ok N s s"
  by (simp add: step_ok_def)

lemma step_ok_trans: "step_ok N s s' \<Longrightarrow> step_ok N s' s'' \<Longrightarrow> step_ok N s s''"
  by (auto simp: step_ok_def split: if_splits)

lemma step_ok_ctx: "step_ok N (s\<lparr>kcontext := cx\<rparr>) s' \<Longrightarrow> step_ok N s s'"
  by (simp add: step_ok_def)

lemma ncalls_mark: "ncalls (tr @ [Marked m]) = ncalls tr"
  by (simp add: ncalls_def)

lemma ncalls_called: "ncalls (tr @ [Called g i v h]) = Suc (ncalls tr)"
  by (simp add: ncalls_def)

lemma step_ok_mark:
  "step_ok N (s\<lparr>trace := trace s @ [Marked m]\<rparr>) s' \<Longrightarrow> step_ok N s s'"
  by (simp add: step_ok_def ncalls_mark)

lemma exec_step_ok: "within N k \<Longrightarrow> step_ok N s (fst (exec p k s))"
proof (induction p arbitrary: s)
  case Return
  then show ?case by (simp add: step_ok_refl)
next
  case (Throw e)
  then show ?case by (simp add: step_ok_refl)
next
  case (Act f p)
  then show ?case by (auto intro: step_ok_ctx)
next
  case (Mark m p)
  then show ?case by (auto intro: step_ok_mark)
next
  case (Cond b p q)
  then show ?case by simp
next
  case (Next p)
  obtain s' r where k: "k s = (s', r)" by (cases "k s")
  have 1: "step_ok N s s'" using Next.prems k by (auto simp: within_def dest: spec[of _ s])
  show ?case
  proof (cases r)
    case Resolved
    then show ?thesis using k 1 Next.IH[OF Next.prems, of s'] by (auto intro: step_ok_trans)
  next
    case (Rejected e)
    then show ?thesis using k 1 by simp
  qed
next
  case (TryNext h p)
  obtain s' r where k: "k s = (s', r)" by (cases "k s")
  have 1: "step_ok N s s'" using TryNext.prems k by (auto simp: within_def dest: spec[of _ s])
  show ?case
  proof (cases r)
    case Resolved
    then show ?thesis using k 1 TryNext.IH[OF TryNext.prems, of s'] by (auto intro: step_ok_trans)
  next
    case (Rejected e)
    then show ?thesis
      using k 1 TryNext.IH[OF TryNext.prems, of "s'\<lparr>kcontext := h e (kcontext s')\<rparr>"]
      by (auto intro: step_ok_trans step_ok_ctx)
  qed
qed

lemma dispatch_within:
  "within (i + length ps) (dispatch i (map exec ps @ [action T c input vars options]))"
proof (induction ps arbitrary: i)
  case Nil
  show ?case
    by (auto simp: within_def step_ok_def action_eq act_on_index act_on_trace ncalls_called)
next
  case (Cons p ps)
  let ?k = "dispatch (Suc i) (map exec ps @ [action T c input vars options])"
  have k: "within (i + length (p # ps)) ?k"
    using Cons.IH[of "Suc i"] by simp
  show ?case unfolding within_def
  proof
    fix s
    show "step_ok (i + length (p # ps)) s
            (fst (dispatch i (map exec (p # ps) @ [action T c input vars options]) s))"
    proof (cases "int i \<le> index s")
      case True
      then show ?thesis by (simp add: step_ok_refl)
    next
      case False
      have a: "step_ok (i + length (p # ps)) s (s\<lparr>index := int i\<rparr>)"
        using False by (simp add: step_ok_def)
      have b: "step_ok (i + length (p # ps)) (s\<lparr>index := int i\<rparr>)
                 (fst (exec p ?k (s\<lparr>index := int i\<rparr>)))"
        by (rule exec_step_ok[OF k])
      show ?thesis using False step_ok_trans[OF a b] by simp
    qed
  qed
qed

subsection \<open>At least one transport call\<close>

lemma step_ok_mono: "step_ok N s s' \<Longrightarrow> ncalls (trace s) \<le> ncalls (trace s')"
  by (simp add: step_ok_def)

lemma exec_reaches:
  "within N k \<Longrightarrow> calls_when_fresh j k \<Longrightarrow> reaches_next p \<Longrightarrow> index s < int j \<Longrightarrow>
   ncalls (trace s) < ncalls (trace (fst (exec p k s)))"
proof (induction p arbitrary: s)
  case (Act f p)
  from Act.IH[of "s\<lparr>kcontext := f (kcontext s)\<rparr>"] Act.prems show ?case by simp
next
  case (Mark m p)
  from Mark.IH[of "s\<lparr>trace := trace s @ [Marked m]\<rparr>"] Mark.prems show ?case
    by (simp add: ncalls_mark)
next
  case (Cond b p q)
  then show ?case by simp
next
  case (Next p)
  obtain s' r where k: "k s = (s', r)" by (cases "k s")
  have 1: "ncalls (trace s) < ncalls (trace s')"
    using Next.prems k by (auto simp: calls_when_fresh_def dest: spec[of _ s])
  have 2: "ncalls (trace s') \<le> ncalls (trace (fst (exec p k s')))"
    using exec_step_ok[OF Next.prems(1)] by (rule step_ok_mono)
  show ?case using k 1 2 by (cases r) auto
next
  case (TryNext h p)
  obtain s' r where k: "k s = (s', r)" by (cases "k s")
  have 1: "ncalls (trace s) < ncalls (trace s')"
    using TryNext.prems k by (auto simp: calls_when_fresh_def dest: spec[of _ s])
  have 2: "ncalls (trace s'') \<le> ncalls (trace (fst (exec p k s'')))" for s''
    using exec_step_ok[OF TryNext.prems(1)] by (rule step_ok_mono)
  show ?case using k 1 2[of s'] 2[of "s'\<lparr>kcontext := h e (kcontext s')\<rparr>" for e]
    by (cases r) (auto simp: le_less_trans less_le_trans)
qed simp_all

lemma dispatch_calls:
  "list_all reaches_next ps \<Longrightarrow>
   calls_when_fresh i (dispatch i (map exec ps @ [action T c input vars options]))"
proof (induction ps arbitrary: i)
  case Nil
  show ?case by (simp add: calls_when_fresh_def action_eq act_on_trace ncalls_called)
next
  case (Cons p ps)
  let ?k = "dispatch (Suc i) (map exec ps @ [action T c input vars options])"
  have w: "within (Suc i + length ps) ?k" by (rule dispatch_within)
  have f: "calls_when_fresh (Suc i) ?k" using Cons by simp
  have r: "reaches_next p" using Cons.prems by simp
  show ?case unfolding calls_when_fresh_def
  proof (intro allI impI)
    fix s :: rstate assume "index s < int i"
    then show "ncalls (trace s)
        < ncalls (trace (fst (dispatch i (map exec (p # ps) @ [action T c input vars options]) s)))"
      using exec_reaches[OF w f r, of "s\<lparr>index := int i\<rparr>"] by simp
  qed
qed

subsection \<open>The calls of a query\<close>

lemma query_trace:
  "snd (fst (query T c tr input options)) =
   trace (fst (dispatch 0
      (map exec (middleware c) @ [action T c input (default [] (variables options)) options])
      \<lparr>kcontext = ctx c, index = - 1, trace = tr\<rparr>))"
  by (simp add: query_def compose_def Let_def split: prod.splits outcome.splits)

lemma query_calls_le:
  "ncalls tr \<le> ncalls (snd (fst (query T c tr input options))) \<and>
   ncalls (snd (fst (query T c tr input options))) \<le> ncalls tr + 1"
proof -
  let ?s = "\<lparr>kcontext = ctx c, index = - 1, trace = tr\<rparr>"
  let ?k = "dispatch 0 (map exec (middleware c) @ [action T c input (default [] (variables options)) options])"
  have "within (0 + length (middleware c)) ?k" by (rule dispatch_within)
  then have "step_ok (0 + length (middleware c)) ?s (fst (?k ?s))"
    by (simp add: within_def)
  then show ?thesis by (simp add: query_trace step_ok_def)
qed

lemma query_calls_ge:
  "list_all reaches_next (middleware c) \<Longrightarrow>
   ncalls tr < ncalls (snd (fst (query T c tr input options)))"
proof -
  assume a: "list_all reaches_next (middleware c)"
  let ?s = "\<lparr>kcontext = ctx c, index = - 1, trace = tr\<rparr>"
  have "index ?s < int 0" by simp
  with dispatch_calls[OF a, of 0 T c input "default [] (variables options)" options]
  show ?thesis unfolding calls_when_fresh_def query_trace by (metis rstate.select_convs(3))
qed

subsection \<open>A query through onion stages\<close>

lemma ncalls_append: "ncalls (xs @ ys) = ncalls xs + ncalls ys"
  by (simp add: ncalls_def)

lemma ncalls_map: "(\<And>x. \<not> is_call (f x)) \<Longrightarrow> ncalls (map f xs) = 0"
  by (induction xs) (simp_all add: ncalls_def)

lemma ncalls_enters: "ncalls (map (Marked \<circ> Enter \<circ> label) sts) = 0"
  by (rule ncalls_map) simp

lemma pres_keeps: "list_all quiet sts \<Longrightarrow> body (pres sts cx) = body cx \<and> valid (pres sts cx) = valid cx"
  by (induction sts cx rule: pres.induct) (auto simp: keeps_def)

lemma posts_keeps: "list_all quiet sts \<Longrightarrow> body (posts sts cx) = body cx \<and> valid (posts sts cx) = valid cx"
  by (induction sts cx rule: posts.induct) (auto simp: keeps_def)

lemma compose_onion:
  "compose (map (exec \<circ> of_onion) sts @ [action T c input vars options]) cx tr =
     ((posts sts (settle_ctx (T (ncalls tr) (graphqlClient c) input vars (default [] (o_headers options))) (pres sts cx)),
       tr @ map (Marked \<circ> Enter \<circ> label) sts
          @ [Called (graphqlClient c) input vars (default [] (o_headers options))]
          @ map (Marked \<circ> Exit \<circ> label) (rev sts)),
      Resolved)"
  by (simp add: compose_def dispatch_onion Let_def act_on_kcontext act_on_trace settle_ctx_def
        ncalls_append ncalls_enters split: sum.splits)

lemma query_onion:
  assumes "middleware c = map of_onion sts"
  shows "query T c tr input options =
     (let cx = posts sts (settle_ctx (reply T c tr input options) (pres sts (ctx c)))
      in ((c\<lparr>ctx := cx\<rparr>,
           tr @ map (Marked \<circ> Enter \<circ> label) sts
              @ [Called (graphqlClient c) input (default [] (variables options)) (default [] (o_headers options))]
              @ map (Marked \<circ> Exit \<circ> label) (rev sts)),
          if valid cx then Inr (body cx) else Inl (body cx)))"
  using assms by (simp add: query_def compose_onion Let_def reply_def)

lemma query_quiet:
  assumes "middleware c = map of_onion sts" and "list_all quiet sts"
  shows "body (ctx (fst (fst (query T c tr input options)))) = (case reply T c tr input options of Inr r \<Rightarrow> r | Inl e \<Rightarrow> e)"
    and "valid (ctx (fst (fst (query T c tr input options)))) = (valid (ctx c) \<and> \<not> isl (reply T c tr input options))"
    and "snd (query T c tr input options) =
           (if valid (ctx c) \<and> \<not> isl (reply T c tr input options)
            then Inr (case reply T c tr input options of Inr r \<Rightarrow> r | Inl e \<Rightarrow> e)
            else Inl (case reply T c tr input options of Inr r \<Rightarrow> r | Inl e \<Rightarrow> e))"
    and "middleware (fst (fst (query T c tr input options))) = middleware c"
  using assms
  by (auto simp: query_onion Let_def posts_keeps pres_keeps settle_ctx_def split: sum.splits)

subsection \<open>Registration\<close>

lemma middleware_foldl: "middleware (foldl applyMiddleware c fns) = middleware c @ fns"
  by (induction fns arbitrary: c) (simp_all add: applyMiddleware_def)

subsection \<open>Queries on an invalid Context\<close>

lemma run_queries_invalid:
  "middleware c = map of_onion sts \<Longrightarrow> list_all quiet sts \<Longrightarrow> \<not> valid (ctx c) \<Longrightarrow>
   list_all rejects_with_reply (run_queries T c tr qs)"
proof (induction qs arbitrary: c tr)
  case Nil
  show ?case by simp
next
  case (Cons q qs)
  obtain input options where q: "q = (input, options)" by (cases q)
  obtain c' tr' r where r: "query T c tr input options = ((c', tr'), r)"
    by (metis prod.collapse)
  note a = query_quiet[OF Cons.prems(1,2), of T tr input options]
  have 1: "middleware c' = map of_onion sts" using a(4) r Cons.prems(1) by simp
  have 2: "\<not> valid (ctx c')" using a(2) r Cons.prems(3) by simp
  have 3: "rejects_with_reply (reply T c tr input options, r)"
    using a(3) r Cons.prems(3) by (cases "reply T c tr input options") simp_all
  show ?case using Cons.IH[OF 1 Cons.prems(2) 2, of tr'] 3 by (simp add: q r)
qed

subsection \<open>Publishing a state\<close>

lemma update_store: "store (update (Store k) cb r w) = (store w)(k \<mapsto> r)"
  by (simp add: update_def Let_def split: option.splits)

lemma update_pending: "pending (update tg cb r w) = pending w"
  by (cases tg) (simp_all add: update_def Let_def split: option.splits)


lemma update_fetcher: "fetcher (update tg cb r w) = fetcher w"
  by (cases tg) (simp_all add: update_def Let_def split: option.splits)

lemma after_query_store:
  "store (after_query r (Store k) cb w) = (store w)(k \<mapsto> settled r)"
  by (cases r) (simp_all add: settled_def update_store)

lemma after_query_pending: "pending (after_query r tg cb w) = pending w"
  by (cases r) (simp_all add: update_pending)

lemma after_query_fetcher: "fetcher (after_query r tg cb w) = fetcher w"
  by (cases r) (simp_all add: update_fetcher)

lemma resume_store:
  "store (resume T (Fetch input opt (Store k) cb) w) =
     (store w)(k \<mapsto> settled (snd (query T (client w) (events w) input opt)))"
  by (simp add: after_query_store split: prod.splits)

lemma resume_pending: "pending (resume T (Fetch input opt tg cb) w) = pending w"
  by (simp add: after_query_pending split: prod.splits)

lemma resume_fetcher: "fetcher (resume T (Fetch input opt tg cb) w) = fetcher w"
  by (simp add: after_query_fetcher split: prod.splits)

subsection \<open>Delivery to an observer without \<^verbatim>\<open>complete\<close>\<close>

lemma invoke_next_no_complete: "CallComplete f \<notin> set (invoke cb (\<lambda>g. CallNext g d))"
  by (cases cb) (simp_all split: option.splits)

lemma invoke_error_no_complete: "CallComplete f \<notin> set (invoke cb (\<lambda>g. CallError g e))"
  by (cases cb) (simp_all split: option.splits)

lemma deliver_no_complete:
  "ch_complete ob = Missing \<Longrightarrow> CallComplete f \<notin> set (deliver ob msg)"
proof (cases msg)
  case (MsgNext d)
  then show ?thesis
    by (cases "get (ch_next ob)") (simp_all add: invoke_next_no_complete)
next
  case (MsgError e)
  then show ?thesis
    by (cases "get (ch_error ob)") (simp_all add: invoke_error_no_complete)
next
  case MsgComplete
  assume "ch_complete ob = Missing"
  then show ?thesis using MsgComplete by simp
qed

lemma foldl_applyMiddleware_ctx: "ctx (foldl applyMiddleware c fns) = ctx c"
  by (induction fns arbitrary: c) (simp_all add: applyMiddleware_def)

lemma foldl_applyMiddleware_graphqlClient:
  "graphqlClient (foldl applyMiddleware c fns) = graphqlClient c"
  by (induction fns arbitrary: c) (simp_all add: applyMiddleware_def)

section \<open>The Context of an invocation\<close>

text \<open>
  C1 says that the Context threaded through the pipeline is allocated for the invocation
  and begins with \<^verbatim>\<open>valid = true\<close>, so that two queries never observe each other's
  \<^verbatim>\<open>body\<close> or \<^verbatim>\<open>valid\<close>.  The code passes the one object \<^verbatim>\<open>this.ctx\<close> to every
  invocation.  On a client built with the default options and no middleware, with a
  transport whose first call throws \<^verbatim>\<open>Error("boom")\<close> and whose second call answers
  \<^verbatim>\<open>{hello: "world"}\<close>: the first query rejects with the error and leaves
  \<^verbatim>\<open>body = Error("boom")\<close>, \<^verbatim>\<open>valid = false\<close> in the Context; the second query starts from
  that Context, its transport call succeeds, and it rejects with the successful result.
\<close>

theorem shared_ctx_leaks_between_queries:
  "snd (query boom_then_ok (constructor default_opt) [] hello no_options) = Inl boom
   \<and> ctx (fst (fst (query boom_then_ok (constructor default_opt) [] hello no_options)))
        = \<lparr>body = boom, headers = [], valid = False\<rparr>
   \<and> reply boom_then_ok
        (fst (fst (query boom_then_ok (constructor default_opt) [] hello no_options)))
        (snd (fst (query boom_then_ok (constructor default_opt) [] hello no_options)))
        hello no_options = Inr world
   \<and> snd (query boom_then_ok
        (fst (fst (query boom_then_ok (constructor default_opt) [] hello no_options)))
        (snd (fst (query boom_then_ok (constructor default_opt) [] hello no_options)))
        hello no_options) = Inl world"
  by (simp add: query_def compose_def action_def constructor_def applyMiddleware_def new_GraphQLClient_def
        Let_def ncalls_def default_opt_def no_options_def hello_def world_def boom_def boom_then_ok_def
        reply_def)

section \<open>The outcome of a query\<close>

text \<open>
  C2, as stated, fails where a stage decides the outcome.  With the stage \<open>fallback\<close>
  registered, the transport call throws \<^verbatim>\<open>Error("boom")\<close> and the query returns
  \<^verbatim>\<open>null\<close> instead of rejecting with the error.  With the stage \<open>thrower\<close> registered,
  the transport call succeeds, \<^verbatim>\<open>ctx.valid\<close> is true, and the query rejects with the
  stage's error instead of returning \<^verbatim>\<open>ctx.body\<close>.
\<close>

theorem stage_decides_outcome_counterexample:
  "reply boom_then_ok (applyMiddleware (constructor default_opt) fallback) [] hello no_options
     = Inl boom
   \<and> snd (query boom_then_ok (applyMiddleware (constructor default_opt) fallback) [] hello
        no_options) = Inr Null
   \<and> reply always_ok (applyMiddleware (constructor default_opt) thrower) [] hello no_options
     = Inr world
   \<and> valid (ctx (applyMiddleware (constructor default_opt) thrower))
   \<and> snd (query always_ok (applyMiddleware (constructor default_opt) thrower) [] hello
        no_options) = Inl boom"
  by (simp add: query_def compose_def action_def constructor_def applyMiddleware_def
        new_GraphQLClient_def Let_def ncalls_def default_opt_def no_options_def hello_def
        world_def boom_def boom_then_ok_def always_ok_def fallback_def thrower_def reply_def)

text \<open>
  C2, amended.  The terminal action always resolves: it writes the result of the transport
  call into \<^verbatim>\<open>ctx.body\<close>, or, when the call throws, the thrown value into \<^verbatim>\<open>ctx.body\<close>
  and \<^verbatim>\<open>false\<close> into \<^verbatim>\<open>ctx.valid\<close>.  For a query that runs alone, on a client all of
  whose stages have the form \<^verbatim>\<open>async (ctx, next) => { A; await next(); B }\<close>, where
  \<open>A\<close> and \<open>B\<close> only read and write \<^verbatim>\<open>ctx\<close>, never throw and leave \<^verbatim>\<open>ctx.body\<close> and
  \<^verbatim>\<open>ctx.valid\<close> as they are (in particular on a client without middleware): when the
  transport call
  succeeds, \<^verbatim>\<open>ctx.body\<close> is the result after the query, and the query returns it if
  \<^verbatim>\<open>ctx.valid\<close> was true when the query began; when the transport call throws,
  \<^verbatim>\<open>ctx.body\<close> is the thrown error, \<^verbatim>\<open>ctx.valid\<close> is false, and the query rejects with
  that same error.
\<close>

theorem query_outcome:
  assumes "middleware c = map of_onion sts" and "list_all quiet sts"
    and "query T c tr input options = ((c', tr'), res)"
  shows "snd (action T c input vars options next s) = Resolved
     \<and> kcontext (fst (action T c input vars options next s)) =
         settle_ctx (T (ncalls (trace s)) (graphqlClient c) input vars (default [] (o_headers options)))
           (kcontext s)
     \<and> (case reply T c tr input options of
           Inr result \<Rightarrow>
             body (ctx c') = result \<and> (valid (ctx c) \<longrightarrow> res = Inr (body (ctx c')))
         | Inl err \<Rightarrow> body (ctx c') = err \<and> \<not> valid (ctx c') \<and> res = Inl err)"
proof -
  have a: "snd (action T c input vars options next s) = Resolved"
    by (simp add: action_eq)
  have b: "kcontext (fst (action T c input vars options next s)) =
         settle_ctx (T (ncalls (trace s)) (graphqlClient c) input vars (default [] (o_headers options)))
           (kcontext s)"
    by (simp add: action_eq act_on_kcontext settle_ctx_def)
  have c: "(case reply T c tr input options of
           Inr result \<Rightarrow>
             body (ctx c') = result \<and> (valid (ctx c) \<longrightarrow> res = Inr (body (ctx c')))
         | Inl err \<Rightarrow> body (ctx c') = err \<and> \<not> valid (ctx c') \<and> res = Inl err)"
    using query_quiet[OF assms(1,2), of T tr input options] assms(3)
    by (auto split: sum.splits)
  show ?thesis by (intro conjI a b c)
qed

theorem query_outcome_witness:
  "middleware (applyMiddleware (constructor default_opt) (of_onion auth)) = map of_onion [auth]
   \<and> list_all quiet [auth]
   \<and> valid (ctx (applyMiddleware (constructor default_opt) (of_onion auth)))
   \<and> reply always_ok (applyMiddleware (constructor default_opt) (of_onion auth)) [] hello
        no_options = Inr world
   \<and> snd (query always_ok (applyMiddleware (constructor default_opt) (of_onion auth)) [] hello
        no_options) = Inr world
   \<and> reply boom_then_ok (applyMiddleware (constructor default_opt) (of_onion auth)) [] hello
        no_options = Inl boom
   \<and> snd (query boom_then_ok (applyMiddleware (constructor default_opt) (of_onion auth)) [] hello
        no_options) = Inl boom"
proof -
  let ?c = "applyMiddleware (constructor default_opt) (of_onion auth)"
  have m: "middleware ?c = map of_onion [auth]"
    by (simp add: applyMiddleware_def constructor_def)
  have k: "list_all quiet [auth]"
    by (simp add: auth_def keeps_def)
  have v: "valid (ctx ?c)"
    by (simp add: applyMiddleware_def constructor_def)
  have r1: "reply always_ok ?c [] hello no_options = Inr world"
    by (simp add: reply_def always_ok_def)
  have r2: "reply boom_then_ok ?c [] hello no_options = Inl boom"
    by (simp add: reply_def boom_then_ok_def ncalls_def)
  obtain c1 tr1 res1 where q1: "query always_ok ?c [] hello no_options = ((c1, tr1), res1)"
    by (metis prod.collapse)
  obtain c2 tr2 res2 where q2: "query boom_then_ok ?c [] hello no_options = ((c2, tr2), res2)"
    by (metis prod.collapse)
  have s1: "snd (query always_ok ?c [] hello no_options) = Inr world"
    using query_outcome[OF m k q1] r1 v q1 by simp
  have s2: "snd (query boom_then_ok ?c [] hello no_options) = Inl boom"
    using query_outcome[OF m k q2] r2 q2 by simp
  show ?thesis by (intro conjI m k v r1 s1 r2 s2)
qed

section \<open>The order of the stages\<close>

text \<open>
  C3, as stated for any registrations, fails where a stage does not call \<^verbatim>\<open>next\<close>: with
  the stages \<open>auth\<close>, \<open>cached\<close> and \<open>timing\<close> registered in this order, the code of
  \<open>auth\<close> before and after \<^verbatim>\<open>next\<close> runs, and neither the stage registered after
  \<open>cached\<close> nor the terminal action runs at all.
\<close>

theorem short_circuit_stage_breaks_order_counterexample:
  "snd (fst (query always_ok
      (foldl applyMiddleware (constructor default_opt) [of_onion auth, cached, of_onion timing])
      [] hello no_options)) = [Marked (Enter 1), Marked (Exit 1)]
   \<and> snd (query always_ok
      (foldl applyMiddleware (constructor default_opt) [of_onion auth, cached, of_onion timing])
      [] hello no_options) = Inr (JStr ''cached'')"
  by (simp add: query_def compose_def action_def constructor_def applyMiddleware_def
        new_GraphQLClient_def Let_def ncalls_def default_opt_def no_options_def hello_def
        world_def always_ok_def cached_def auth_def timing_def stage_def)

text \<open>
  C3, amended: after any sequence of registrations of stages of the form
  \<^verbatim>\<open>async (ctx, next) => { enter(l); A; await next(); exit(l); B }\<close>, where \<open>A\<close> and
  \<open>B\<close> only read and write \<^verbatim>\<open>ctx\<close> and never throw and \<^verbatim>\<open>enter\<close>, \<^verbatim>\<open>exit\<close> record the
  markers of the stage, on a client that holds only such stages already, a
  query that runs alone runs the code before \<^verbatim>\<open>next\<close> of the stages in registration
  order, then the terminal action with its one transport call, then the code after
  \<^verbatim>\<open>next\<close> in the reverse of registration order.  This is what the observer's trace
  records, and how the Context after the query is computed, whatever the transport
  answers.
\<close>

theorem onion_order:
  assumes "middleware c = map of_onion sts0"
  shows "snd (fst (query T (foldl applyMiddleware c (map of_onion sts)) tr input options)) =
           tr @ map (Marked \<circ> Enter \<circ> label) (sts0 @ sts)
              @ [Called (graphqlClient c) input (default [] (variables options))
                   (default [] (o_headers options))]
              @ map (Marked \<circ> Exit \<circ> label) (rev (sts0 @ sts))
     \<and> ctx (fst (fst (query T (foldl applyMiddleware c (map of_onion sts)) tr input options))) =
           posts (sts0 @ sts) (settle_ctx (reply T c tr input options) (pres (sts0 @ sts) (ctx c)))"
proof -
  let ?c = "foldl applyMiddleware c (map of_onion sts)"
  have m: "middleware ?c = map of_onion (sts0 @ sts)"
    using assms by (simp add: middleware_foldl)
  have r: "reply T ?c tr input options = reply T c tr input options"
    by (simp add: reply_def foldl_applyMiddleware_graphqlClient)
  show ?thesis
    by (simp add: query_onion[OF m] Let_def r foldl_applyMiddleware_graphqlClient
          foldl_applyMiddleware_ctx)
qed

theorem onion_order_witness:
  "middleware (constructor default_opt) = map of_onion []
   \<and> snd (fst (query boom_then_ok
        (foldl applyMiddleware (constructor default_opt) (map of_onion [auth, timing])) []
        hello no_options)) =
       [Marked (Enter 1), Marked (Enter 2),
        Called (graphqlClient (constructor default_opt)) hello [] [],
        Marked (Exit 2), Marked (Exit 1)]"
  using onion_order[of "constructor default_opt" "[]" boom_then_ok "[auth, timing]" "[]" hello
      no_options]
  by (simp add: constructor_def no_options_def auth_def timing_def)

section \<open>The number of transport calls\<close>

text \<open>
  C4, as stated, fails where a stage returns without calling \<^verbatim>\<open>next\<close>: with the stage
  \<open>cached\<close> registered the query returns \<^verbatim>\<open>'cached'\<close> and no transport call is made.
\<close>

theorem cached_stage_no_transport_call_counterexample:
  "ncalls (snd (fst (query always_ok (applyMiddleware (constructor default_opt) cached) []
      hello no_options))) = 0
   \<and> snd (query always_ok (applyMiddleware (constructor default_opt) cached) [] hello
        no_options) = Inr (JStr ''cached'')"
  by (simp add: query_def compose_def action_def constructor_def applyMiddleware_def new_GraphQLClient_def
        Let_def ncalls_def default_opt_def no_options_def hello_def world_def boom_def always_ok_def
        cached_def)

text \<open>
  C4, amended: a query never makes more than one transport call, whatever the stages do
  and whether the call succeeds or throws (there is no retry); it makes exactly one when
  every registered stage reaches \<^verbatim>\<open>await next()\<close>, in particular when no stage is
  registered.
\<close>

theorem query_transport_calls:
  "ncalls (snd (fst (query T c tr input options))) \<le> ncalls tr + 1
   \<and> ncalls tr \<le> ncalls (snd (fst (query T c tr input options)))
   \<and> (list_all reaches_next (middleware c) \<longrightarrow>
        ncalls (snd (fst (query T c tr input options))) = ncalls tr + 1)"
  using query_calls_le[of tr T c input options] query_calls_ge[of c tr T input options]
  by auto

theorem query_transport_calls_witness:
  "list_all reaches_next (middleware (applyMiddleware (constructor default_opt) (of_onion auth)))
   \<and> ncalls (snd (fst (query boom_then_ok
        (applyMiddleware (constructor default_opt) (of_onion auth)) [] hello no_options))) = 1"
  using query_transport_calls[of boom_then_ok
      "applyMiddleware (constructor default_opt) (of_onion auth)" "[]" hello no_options]
  by (simp add: query_def compose_def action_def constructor_def applyMiddleware_def new_GraphQLClient_def
        Let_def ncalls_def default_opt_def no_options_def hello_def world_def boom_def boom_then_ok_def
        auth_def stage_def)

section \<open>The hooks \<open>useMutate\<close> and \<open>useQuery\<close>\<close>




text \<open>
  C6 puts the registration of the refetch handle after the transition of the state.  The
  effect calls \<^verbatim>\<open>doFetch(options)\<close> without awaiting it and registers the handle in the
  same synchronous run: when the handle is registered, the fetch is pending and the state
  is still \<^verbatim>\<open>{loading: true}\<close>.
\<close>

theorem refetch_registered_while_loading_counterexample:
  "fetcher (useQuery_effect hello no_options (snd (useQuery hello no_options fresh_world)))
      hello = Some (Refetch hello hello Missing)
   \<and> store (useQuery_effect hello no_options (snd (useQuery hello no_options fresh_world)))
      hello = Some \<lparr>loading = True, data = Undefined, error = Undefined\<rparr>
   \<and> pending (useQuery_effect hello no_options (snd (useQuery hello no_options fresh_world)))
      = [Fetch hello no_options (Store hello) Missing]"
  by (simp add: useQuery_effect_def useQuery_doFetch_def useQuery_def useStore_def
        fetcher_set_def fresh_world_def no_options_def Let_def)

text \<open>
  C6, amended: on a key that the store does not hold yet, \<open>useQuery\<close> initialises the
  state of the key to \<^verbatim>\<open>{loading: true, data: initialData}\<close>.  The effect that runs on
  mount starts the fetch of the operation with the hook's options and then registers the
  refetch handle under the same key, the state still loading.  When the fetch is resumed,
  the state becomes \<^verbatim>\<open>{loading: false, data}\<close> if the query returns \<open>data\<close> and
  \<^verbatim>\<open>{loading: false, error}\<close> if it rejects with \<open>error\<close>; the handle stays registered.
\<close>

theorem useQuery_mount:
  assumes "name = str_or (key options) input"
    and "store w name = None" and "pending w = []"
    and "useQuery input options w = ((result, refetch), w1)"
    and "w2 = useQuery_effect input options w1"
  shows "result =
           \<lparr>loading = True, data = default Undefined (initialData options), error = Undefined\<rparr>
     \<and> store w1 name = Some result
     \<and> pending w2 = [Fetch input options (Store name) (onUpdate options)]
     \<and> fetcher w2 name = Some refetch
     \<and> refetch = Refetch input name (onUpdate options)
     \<and> store w2 name = Some result
     \<and> store (turn T w2) name =
         Some (settled (snd (query T (client w) (events w) input options)))
     \<and> fetcher (turn T w2) name = Some refetch
     \<and> pending (turn T w2) = []"
proof -
  have r: "result =
      \<lparr>loading = True, data = default Undefined (initialData options), error = Undefined\<rparr>"
    and w1: "w1 = w\<lparr>store := (store w)(name \<mapsto> result)\<rparr>"
    and h: "refetch = Refetch input name (onUpdate options)"
    using assms(1,2,4) by (auto simp: useQuery_def useStore_def Let_def)
  have p: "pending w2 = [Fetch input options (Store name) (onUpdate options)]"
    by (simp add: assms(1,3,5) w1 useQuery_effect_def useQuery_doFetch_def fetcher_set_def
          Let_def)
  have f: "fetcher w2 name = Some refetch"
    by (simp add: assms(1,5) h useQuery_effect_def fetcher_set_def Let_def)
  have s2: "store w2 name = Some result"
    by (simp add: assms(1,5) w1 useQuery_effect_def useQuery_doFetch_def fetcher_set_def
          Let_def)
  have c: "client w2 = client w" and e: "events w2 = events w"
    by (simp_all add: assms(1,5) w1 useQuery_effect_def useQuery_doFetch_def fetcher_set_def
          Let_def)
  have t: "turn T w2 =
      resume T (Fetch input options (Store name) (onUpdate options)) (w2\<lparr>pending := []\<rparr>)"
    by (simp add: turn_def p)
  have s3: "store (turn T w2) name =
      Some (settled (snd (query T (client w) (events w) input options)))"
    by (simp only: t resume_store) (simp add: c e)
  have f3: "fetcher (turn T w2) name = Some refetch"
    by (simp only: t resume_fetcher) (simp add: f)
  have p3: "pending (turn T w2) = []"
    by (simp only: t resume_pending) simp
  show ?thesis using r w1 h p f s2 s3 f3 p3 by simp
qed

theorem useQuery_mount_witness:
  "store fresh_world hello = None \<and> pending fresh_world = []
   \<and> fst (fst (useQuery hello no_options fresh_world))
        = \<lparr>loading = True, data = Undefined, error = Undefined\<rparr>
   \<and> fetcher (useQuery_effect hello no_options (snd (useQuery hello no_options fresh_world)))
        hello = Some (Refetch hello hello Missing)
   \<and> store (turn boom_then_ok
        (useQuery_effect hello no_options (snd (useQuery hello no_options fresh_world)))) hello
        = Some \<lparr>loading = False, data = Undefined, error = boom\<rparr>"
proof -
  let ?w1 = "snd (useQuery hello no_options fresh_world)"
  let ?r = "fst (fst (useQuery hello no_options fresh_world))"
  let ?h = "snd (fst (useQuery hello no_options fresh_world))"
  have n: "hello = str_or (key no_options) hello"
    by (simp add: no_options_def)
  have a: "store fresh_world hello = None" and b: "pending fresh_world = []"
    by (simp_all add: fresh_world_def)
  have u: "useQuery hello no_options fresh_world = ((?r, ?h), ?w1)"
    by simp
  have q: "snd (query boom_then_ok (client fresh_world) (events fresh_world) hello no_options)
      = Inl boom"
    by (simp add: fresh_world_def query_def compose_def action_def constructor_def applyMiddleware_def new_GraphQLClient_def
        Let_def ncalls_def default_opt_def no_options_def hello_def world_def boom_def boom_then_ok_def)
  from useQuery_mount[OF n a b u refl, of boom_then_ok] a b q
  show ?thesis by (simp add: settled_def no_options_def)
qed

section \<open>Subscriptions without a subscriptions endpoint\<close>

text \<open>
  C7 says that \<open>useSubscribe\<close> and \<open>fromSubscription\<close> both fail at once with a
  configuration error on a client without a subscriptions endpoint.  On the client built
  with the default options \<open>fromSubscription\<close> throws
  \<^verbatim>\<open>Error('require subscriptionsEndpoint config')\<close>, and \<open>useSubscribe\<close> does not: the hook
  returns \<^verbatim>\<open>{loading: true}\<close>, and its effect ends with the unhandled rejection of a
  \<^verbatim>\<open>TypeError\<close> from the access to \<^verbatim>\<open>null\<close>.
\<close>

theorem useSubscribe_unconfigured:
  "subscriptionClient (client fresh_world) = None
   \<and> fst (useSubscribe ticks no_sub_options fresh_world)
        = \<lparr>loading = True, data = Undefined, error = Undefined\<rparr>
   \<and> events (useSubscribe_effect ticks no_sub_options
        (snd (useSubscribe ticks no_sub_options fresh_world)))
        = [UnhandledRejection (JTypeError ''Cannot read properties of null (reading request)'')]
   \<and> fromSubscription (client fresh_world) ticks \<lparr>fs_variables = Missing\<rparr>
        = Inl (JError ''require subscriptionsEndpoint config'')"
  by (simp add: fresh_world_def no_sub_options_def useSubscribe_def useState_def
        useSubscribe_effect_def initSubscribe_def initQuery_def fromSubscription_def
        constructor_def default_opt_def Let_def)

section \<open>Reconfiguration\<close>



section \<open>A rejection stays\<close>

text \<open>
  C9, as stated for any client, fails where a stage sets \<^verbatim>\<open>ctx.valid\<close> back or throws.
  With the stage \<open>recover\<close> registered, the first query rejects with \<^verbatim>\<open>Error("boom")\<close>
  and the second query returns the result of its transport call.  With the stage
  \<open>throw_once\<close> registered, the first query rejects with the stage's error,
  \<^verbatim>\<open>ctx.valid\<close> stays true, and the second query returns the result of its transport
  call.
\<close>

theorem later_query_resolves_counterexample:
  "snd (query boom_then_ok (applyMiddleware (constructor default_opt) recover) [] hello
      no_options) = Inl boom
   \<and> snd (query boom_then_ok
        (fst (fst (query boom_then_ok (applyMiddleware (constructor default_opt) recover) []
           hello no_options)))
        (snd (fst (query boom_then_ok (applyMiddleware (constructor default_opt) recover) []
           hello no_options)))
        hello no_options) = Inr world
   \<and> snd (query always_ok (applyMiddleware (constructor default_opt) throw_once) [] hello
      no_options) = Inl boom
   \<and> valid (ctx (fst (fst (query always_ok
        (applyMiddleware (constructor default_opt) throw_once) [] hello no_options))))
   \<and> snd (query always_ok
        (fst (fst (query always_ok (applyMiddleware (constructor default_opt) throw_once) []
           hello no_options)))
        (snd (fst (query always_ok (applyMiddleware (constructor default_opt) throw_once) []
           hello no_options)))
        hello no_options) = Inr world"
  by (simp add: query_def compose_def action_def constructor_def applyMiddleware_def
        new_GraphQLClient_def Let_def ncalls_def default_opt_def no_options_def hello_def
        world_def boom_def boom_then_ok_def always_ok_def recover_def throw_once_def)

text \<open>
  C9, amended: on a client all of whose stages have the form
  \<^verbatim>\<open>async (ctx, next) => { A; await next(); B }\<close>, where \<open>A\<close> and \<open>B\<close> only read and
  write \<^verbatim>\<open>ctx\<close>, never throw and leave \<^verbatim>\<open>ctx.body\<close> and \<^verbatim>\<open>ctx.valid\<close> as they are (in
  particular on a client without middleware), once a query has rejected, every later
  query on that
  client, each run after the one before it has settled, rejects, whatever operations and
  options the later queries have: with the result of its transport call when that call
  succeeds, with the thrown error when it throws.
\<close>

theorem rejection_is_sticky:
  assumes "middleware c = map of_onion sts" and "list_all quiet sts"
    and "query T c tr input options = ((c', tr'), Inl e)"
  shows "list_all rejects_with_reply (run_queries T c' tr' qs)"
proof -
  note a = query_quiet[OF assms(1,2), of T tr input options]
  have 1: "middleware c' = map of_onion sts"
    using a(4) assms(1,3) by simp
  have 2: "\<not> valid (ctx c')"
    using a(2,3) assms(3) by (auto split: if_splits)
  show ?thesis by (rule run_queries_invalid[OF 1 assms(2) 2])
qed

theorem rejection_is_sticky_witness:
  "middleware (applyMiddleware (constructor default_opt) (of_onion auth)) = map of_onion [auth]
   \<and> list_all quiet [auth]
   \<and> snd (query boom_then_ok (applyMiddleware (constructor default_opt) (of_onion auth)) []
        hello no_options) = Inl boom
   \<and> map snd (run_queries boom_then_ok
        (fst (fst (query boom_then_ok (applyMiddleware (constructor default_opt) (of_onion auth))
           [] hello no_options)))
        (snd (fst (query boom_then_ok (applyMiddleware (constructor default_opt) (of_onion auth))
           [] hello no_options)))
        [(hello, no_options), (hello, no_options)]) = [Inl world, Inl world]
   \<and> list_all rejects_with_reply (run_queries boom_then_ok
        (fst (fst (query boom_then_ok (applyMiddleware (constructor default_opt) (of_onion auth))
           [] hello no_options)))
        (snd (fst (query boom_then_ok (applyMiddleware (constructor default_opt) (of_onion auth))
           [] hello no_options)))
        [(hello, no_options), (hello, no_options)])"
proof -
  let ?c = "applyMiddleware (constructor default_opt) (of_onion auth)"
  have m: "middleware ?c = map of_onion [auth]"
    by (simp add: applyMiddleware_def constructor_def)
  have k: "list_all quiet [auth]"
    by (simp add: auth_def keeps_def)
  have q: "query boom_then_ok ?c [] hello no_options =
      ((fst (fst (query boom_then_ok ?c [] hello no_options)),
        snd (fst (query boom_then_ok ?c [] hello no_options))), Inl boom)"
    by (simp add: query_def compose_def action_def constructor_def applyMiddleware_def new_GraphQLClient_def
        Let_def ncalls_def default_opt_def no_options_def hello_def world_def boom_def boom_then_ok_def
          auth_def stage_def)
  have v: "map snd (run_queries boom_then_ok
        (fst (fst (query boom_then_ok ?c [] hello no_options)))
        (snd (fst (query boom_then_ok ?c [] hello no_options)))
        [(hello, no_options), (hello, no_options)]) = [Inl world, Inl world]"
    by (simp add: query_def compose_def action_def constructor_def applyMiddleware_def new_GraphQLClient_def
        Let_def ncalls_def default_opt_def no_options_def hello_def world_def boom_def boom_then_ok_def
          auth_def stage_def reply_def)
  have s: "snd (query boom_then_ok ?c [] hello no_options) = Inl boom"
    by (simp add: query_def compose_def action_def constructor_def applyMiddleware_def new_GraphQLClient_def
        Let_def ncalls_def default_opt_def no_options_def hello_def world_def boom_def boom_then_ok_def
          auth_def stage_def)
  have r: "list_all rejects_with_reply (run_queries boom_then_ok
        (fst (fst (query boom_then_ok ?c [] hello no_options)))
        (snd (fst (query boom_then_ok ?c [] hello no_options)))
        [(hello, no_options), (hello, no_options)])"
    by (rule rejection_is_sticky[OF m k q])
  show ?thesis by (intro conjI m k s v r)
qed

section \<open>The observer that \<open>fromSubscription\<close> attaches\<close>

text \<open>
  C10: the observer that \<open>subscribe\<close> attaches to the channel holds the caller's
  \<^verbatim>\<open>complete\<close> callback exactly when the caller's observer defines an \<^verbatim>\<open>error\<close> callback
  too; for an observer without \<^verbatim>\<open>error\<close>, no message that the channel delivers calls the
  caller's \<^verbatim>\<open>complete\<close>.
\<close>

theorem complete_needs_error:
  "(ch_complete (snd (subscribe sb observer)) = Val (Own f))
      = (defined (ob_error observer) \<and> ob_complete observer = Val f)
   \<and> (\<not> defined (ob_error observer) \<longrightarrow>
        CallComplete f \<notin> set (concat (map (deliver (snd (subscribe sb observer))) msgs)))"
proof -
  have 1: "(ch_complete (make_ob observer) = Val (Own f))
      = (defined (ob_error observer) \<and> ob_complete observer = Val f)"
    by (cases "ob_complete observer") (auto simp: make_ob_def Let_def)
  have 2: "\<not> defined (ob_error observer) \<Longrightarrow> ch_complete (make_ob observer) = Missing"
    by (simp add: make_ob_def Let_def)
  show ?thesis using 1 2 by (auto simp: subscribe_def dest: deliver_no_complete)
qed

theorem complete_needs_error_witness:
  "\<not> defined (ob_error watcher)
   \<and> ob_complete watcher = Val 3
   \<and> ch_complete (snd (subscribe tick_source watcher)) \<noteq> Val (Own 3)
   \<and> CallComplete 3 \<notin> set (concat (map (deliver (snd (subscribe tick_source watcher)))
         [MsgNext Null, MsgComplete]))
   \<and> concat (map (deliver (snd (subscribe tick_source watcher))) [MsgNext Null, MsgComplete])
       = [CallNext 1 Null]"
  using complete_needs_error[of tick_source watcher 3 "[MsgNext Null, MsgComplete]"]
  by (simp add: subscribe_def make_ob_def Let_def watcher_def)

end
